theory Spec2Isabelle
  imports Complex_Main "HOL-Library.Sublist"
begin

chapter \<open>The conversion engine\<close>

section \<open>Markup trees\<close>

text \<open>
  The conversion engine works on lxml element trees. An element has a qualified tag, an
  attribute dictionary, an optional text and its child elements in document order. lxml
  writes a qualified name in Clark notation, \<^verbatim>\<open>{namespace}local\<close>; here it is the pair
  of the namespace and the local name, so that \<^verbatim>\<open>etree.QName(tag).localname\<close> is the
  second component. A \<^typ>\<open>char\<close> stands for one character of a Python string.

  An element is an object, and the code keeps references to elements while it changes
  the tree around them. The first field of an element is its identity: for an element
  of the parsed document, the position at which the parser met it (the child indices on
  the way from the root); for an element that the code creates, none, since no reference
  to it is kept after it is put into the tree.
\<close>

datatype qname = QName (namespace: string) (localname: string)

datatype element =
  Element (ref: "nat list option") (tag: qname) (attrib: "(qname \<times> string) list")
    (elem_text: "string option") (children: "element list")

definition W_NS :: string where
  "W_NS = ''http://schemas.openxmlformats.org/wordprocessingml/2006/main''"

definition XML_NS :: string where
  "XML_NS = ''http://www.w3.org/XML/1998/namespace''"

text \<open>\<^verbatim>\<open>W = f"{{{NAMESPACES['w']}}}"\<close>; \<^verbatim>\<open>f"{W}name"\<close> is \<open>W name\<close>.\<close>

definition W :: "string \<Rightarrow> qname" where
  "W name = QName W_NS name"

text \<open>\<^verbatim>\<open>elem.get(key, default)\<close>.\<close>

definition get :: "element \<Rightarrow> qname \<Rightarrow> string \<Rightarrow> string" where
  "get e k d = (case map_of (attrib e) k of Some v \<Rightarrow> v | None \<Rightarrow> d)"

text \<open>
  \<^verbatim>\<open>elem.iter()\<close> walks the element and all its descendants in document order;
  \<^verbatim>\<open>elem.iter(tag)\<close> keeps those with the given tag.
\<close>

fun iter_all :: "element \<Rightarrow> element list" where
  "iter_all (Element r t a x cs) = Element r t a x cs # concat (map iter_all cs)"

definition iter :: "qname \<Rightarrow> element \<Rightarrow> element list" where
  "iter t e = filter (\<lambda>x. tag x = t) (iter_all e)"

text \<open>\<^verbatim>\<open>elem.find(tag)\<close>: the first direct child with the tag, or None.\<close>

definition find_child :: "qname \<Rightarrow> element \<Rightarrow> element option" where
  "find_child t e = List.find (\<lambda>c. tag c = t) (children e)"

text \<open>\<^verbatim>\<open>sub in s\<close> on strings.\<close>

fun contains :: "'a list \<Rightarrow> 'a list \<Rightarrow> bool" where
  "contains sub [] = (sub = [])"
| "contains sub (c # cs) = (prefix sub (c # cs) \<or> contains sub cs)"

section \<open>Integrity verifier\<close>

text \<open>
  The issues \<^verbatim>\<open>verify_document_integrity\<close> appends, by message:
  \<^item> \<open>UnmatchedEnd\<close>: \<^verbatim>\<open>"Unmatched field 'end' without 'begin'"\<close>;
  \<^item> \<open>UnclosedFields n\<close>: \<^verbatim>\<open>f"{n} unclosed field(s) detected (begin without end)"\<close>;
  \<^item> \<open>BodyNotFound\<close>: \<^verbatim>\<open>"Document body element not found"\<close>;
  \<^item> \<open>SdtWithoutContent\<close>: \<^verbatim>\<open>"SDT element without sdtContent found"\<close>.
\<close>

datatype issue = UnmatchedEnd | UnclosedFields int | BodyNotFound | SdtWithoutContent

text \<open>
  Check 1, the loop over the \<^verbatim>\<open>fldCharType\<close> values of the field-character markers:
  the counter after the walk, and whether the walk stopped at a negative counter
  (\<^verbatim>\<open>break\<close>).
\<close>

fun field_walk :: "int \<Rightarrow> string list \<Rightarrow> int \<times> bool" where
  "field_walk field_stack [] = (field_stack, False)"
| "field_walk field_stack (fld_type # rest) =
     (let field_stack' =
            (if fld_type = ''begin'' then field_stack + 1
             else if fld_type = ''end'' then field_stack - 1
             else field_stack)
      in if field_stack' < 0 then (field_stack', True) else field_walk field_stack' rest)"

definition fld_types :: "element \<Rightarrow> string list" where
  "fld_types doc = map (\<lambda>elem. get elem (W ''fldCharType'') '''') (iter (W ''fldChar'') doc)"

definition check_fields :: "string list \<Rightarrow> issue list" where
  "check_fields types =
     (case field_walk 0 types of (field_stack, stopped) \<Rightarrow>
        (if stopped then [UnmatchedEnd] else []) @
        (if field_stack > 0 then [UnclosedFields field_stack] else []))"

text \<open>\<^verbatim>\<open>verify_document_integrity(root)\<close> on an element (not a path).\<close>

definition verify_document_integrity :: "element \<Rightarrow> issue list" where
  "verify_document_integrity doc =
     check_fields (fld_types doc) @
     (if find_child (W ''body'') doc = None then [BodyNotFound] else []) @
     map (\<lambda>sdt. SdtWithoutContent)
       (filter (\<lambda>sdt. find_child (W ''sdtContent'') sdt = None) (iter (W ''sdt'') doc))"

section \<open>Field code synthesizer\<close>

text \<open>\<^verbatim>\<open>range(start, stop, step)\<close> for a positive step, and the slice \<^verbatim>\<open>s[i:j]\<close>.\<close>

definition range_step :: "nat \<Rightarrow> nat \<Rightarrow> nat \<Rightarrow> nat list" where
  "range_step start stop step =
     map (\<lambda>k. start + k * step) [0 ..< (stop - start + step - 1) div step]"

definition slice :: "'a list \<Rightarrow> nat \<Rightarrow> nat \<Rightarrow> 'a list" where
  "slice s i j = take (j - i) (drop i s)"

definition fld_char_run :: "string \<Rightarrow> element" where
  "fld_char_run fld_type =
     Element None (W ''r'') [] None
       [Element None (W ''fldChar'') [(W ''fldCharType'', fld_type)] None []]"

definition instr_run :: "string \<Rightarrow> element" where
  "instr_run chunk =
     Element None (W ''r'') [] None
       [Element None (W ''instrText'') [(QName XML_NS ''space'', ''preserve'')] (Some chunk) []]"

definition chunk_size :: nat where
  "chunk_size = 250"

definition citation_instr_text :: "string \<Rightarrow> string" where
  "citation_instr_text citation_json_str =
     '' ADDIN ZOTERO_ITEM CSL_CITATION '' @ citation_json_str @ '' ''"

definition create_zotero_field_xml :: "string \<Rightarrow> string \<Rightarrow> element list" where
  "create_zotero_field_xml citation_json_str display_text =
     (let instr_text = citation_instr_text citation_json_str;
          r_display =
            Element None (W ''r'') [] None
              [Element None (W ''rPr'') [] None [Element None (W ''noProof'') [] None []],
               Element None (W ''t'') [(QName XML_NS ''space'', ''preserve'')] (Some display_text) []]
      in [fld_char_run ''begin''] @
         map (\<lambda>i. instr_run (slice instr_text i (i + chunk_size)))
           (range_step 0 (length instr_text) chunk_size) @
         [fld_char_run ''separate''] @ [r_display] @ [fld_char_run ''end''])"

text \<open>
  \<^verbatim>\<open>json.dumps({"uncited": [], "omitted": [], "custom": []}, ensure_ascii=False)\<close>
  inside \<^verbatim>\<open>f' ADDIN ZOTERO_BIBL {bibl_json} CSL_BIBLIOGRAPHY '\<close>.
\<close>

definition bibl_instr_text :: string where
  \<open>bibl_instr_text =
     '' ADDIN ZOTERO_BIBL {"uncited": [], "omitted": [], "custom": []} CSL_BIBLIOGRAPHY ''\<close>

definition create_zotero_bibl_field_xml :: "string \<Rightarrow> element list" where
  "create_zotero_bibl_field_xml style_uri =
     [fld_char_run ''begin'',
      instr_run bibl_instr_text,
      fld_char_run ''separate'',
      Element None (W ''r'') [] None
        [Element None (W ''t'') [(QName XML_NS ''space'', ''preserve'')]
           (Some ''{Bibliography will be generated by Zotero}'') []],
      fld_char_run ''end'']"

section \<open>Document rewriter: the bibliography field\<close>

text \<open>\<^verbatim>\<open>xs.index(x)\<close> for the first element satisfying \<open>P\<close>, and \<^verbatim>\<open>xs.insert(i, x)\<close>.\<close>

definition index_where :: "('a \<Rightarrow> bool) \<Rightarrow> 'a list \<Rightarrow> nat" where
  "index_where P xs = length (takeWhile (\<lambda>x. \<not> P x) xs)"

definition insert_at :: "nat \<Rightarrow> 'a \<Rightarrow> 'a list \<Rightarrow> 'a list" where
  "insert_at i x xs = take i xs @ x # drop i xs"

text \<open>\<^verbatim>\<open>instr.text and "ZOTERO_BIBL" in instr.text\<close>.\<close>

definition has_zotero_bibl :: "element \<Rightarrow> bool" where
  "has_zotero_bibl instr =
     (case elem_text instr of None \<Rightarrow> False
      | Some t \<Rightarrow> t \<noteq> [] \<and> contains ''ZOTERO_BIBL'' t)"

text \<open>
  \<^verbatim>\<open>add_zotero_bibl_at_end(root, style_uri)\<close> mutates the tree and returns a boolean;
  the model returns the boolean and the tree after the call.
\<close>

definition add_zotero_bibl_at_end :: "element \<Rightarrow> string \<Rightarrow> bool \<times> element" where
  "add_zotero_bibl_at_end doc style_uri =
     (case find_child (W ''body'') doc of
        None \<Rightarrow> (False, doc)
      | Some body \<Rightarrow>
          if list_ex has_zotero_bibl (iter (W ''instrText'') doc) then (False, doc)
          else
            let p = Element None (W ''p'') [] None (create_zotero_bibl_field_xml style_uri);
                kids = children body;
                kids' =
                  (case find_child (W ''sectPr'') body of
                     Some sect_pr \<Rightarrow> insert_at (index_where (\<lambda>c. tag c = W ''sectPr'') kids) p kids
                   | None \<Rightarrow> kids @ [p]);
                body' = Element (ref body) (tag body) (attrib body) (elem_text body) kids';
                i = index_where (\<lambda>c. tag c = W ''body'') (children doc)
            in (True,
                Element (ref doc) (tag doc) (attrib doc) (elem_text doc) ((children doc)[i := body'])))"


section \<open>Credential redaction\<close>

text \<open>
  \<^verbatim>\<open>s.replace(old, new)\<close>: every non-overlapping occurrence of \<open>old\<close>, found from the
  left, is replaced; an empty \<open>old\<close> matches before every character and at the end.
\<close>

function replace :: "'a list \<Rightarrow> 'a list \<Rightarrow> 'a list \<Rightarrow> 'a list" where
  "replace s old new =
     (case s of
        [] \<Rightarrow> (if old = [] then new else [])
      | c # cs \<Rightarrow>
          if old = [] then new @ c # replace cs old new
          else if prefix old s then new @ replace (drop (length old) s) old new
          else c # replace cs old new)"
  by pat_completeness auto
termination
  by (relation "measure (\<lambda>(s, old, new). length s)") auto

declare replace.simps [simp del]

text \<open>
  The sanitizing step of the four exception handlers (\<^verbatim>\<open>run_conversion\<close>,
  \<^verbatim>\<open>ConversionWorker.run\<close> and the two of \<^verbatim>\<open>BatchConversionWorker.run\<close>), applied to
  \<^verbatim>\<open>str(e)\<close> and, in the workers, to the traceback:
  \<^verbatim>\<open>if api_key and len(api_key) > 4: err_msg = err_msg.replace(api_key, api_key[:4] + "****")\<close>.
\<close>

definition redact :: "string \<Rightarrow> string \<Rightarrow> string" where
  "redact api_key err_msg =
     (if api_key \<noteq> [] \<and> length api_key > 4
      then replace err_msg api_key (take 4 api_key @ ''****'')
      else err_msg)"

text \<open>The line \<^verbatim>\<open>run_conversion\<close> logs when connecting to the library raises \<open>e\<close>.\<close>

definition connect_error_log :: "string \<Rightarrow> string \<Rightarrow> string" where
  "connect_error_log api_key str_e = ''ERROR: Could not connect to Zotero: '' @ redact api_key str_e"

text \<open>
  The two lines \<^verbatim>\<open>ConversionWorker.run\<close> logs and the text it sends on the error signal
  when the run raises \<open>e\<close> with traceback \<open>tb\<close>.
\<close>

definition worker_error_report :: "string \<Rightarrow> string \<Rightarrow> string \<Rightarrow> string list \<times> string" where
  "worker_error_report api_key str_e tb =
     ([[CHR 0x0A] @ ''ERROR: '' @ redact api_key str_e, redact api_key tb], redact api_key str_e)"

section \<open>Archive accessor\<close>

text \<open>\<^verbatim>\<open>s.split(sep)\<close> for a one-character separator and \<^verbatim>\<open>sep.join(xs)\<close>.\<close>

fun split_on :: "'a \<Rightarrow> 'a list \<Rightarrow> 'a list list" where
  "split_on sep [] = [[]]"
| "split_on sep (c # cs) =
     (if c = sep then [] # split_on sep cs
      else (case split_on sep cs of [] \<Rightarrow> [[c]] | w # ws \<Rightarrow> (c # w) # ws))"

fun join_with :: "'a list \<Rightarrow> 'a list list \<Rightarrow> 'a list" where
  "join_with sep [] = []"
| "join_with sep [x] = x"
| "join_with sep (x # y # ys) = x @ sep @ join_with sep (y # ys)"

text \<open>
  The functions of \<^verbatim>\<open>posixpath\<close> the archive code calls: \<^verbatim>\<open>os.path.join(a, b)\<close>,
  \<^verbatim>\<open>os.path.normpath\<close> with its loop over the components, and \<^verbatim>\<open>os.path.realpath\<close>,
  which on an absolute path none of whose components is a symbolic link is the
  normalized path.
\<close>

definition path_join :: "string \<Rightarrow> string \<Rightarrow> string" where
  "path_join a b =
     (if prefix ''/'' b then b
      else if a = [] \<or> last a = CHR ''/'' then a @ b
      else a @ ''/'' @ b)"

fun normpath_comps :: "nat \<Rightarrow> string list \<Rightarrow> string list \<Rightarrow> string list" where
  "normpath_comps initial_slashes new_comps [] = new_comps"
| "normpath_comps initial_slashes new_comps (component # comps) =
     (if component = [] \<or> component = ''.'' then normpath_comps initial_slashes new_comps comps
      else if component \<noteq> ''..'' \<or> (initial_slashes = 0 \<and> new_comps = [])
              \<or> (new_comps \<noteq> [] \<and> last new_comps = ''..'')
        then normpath_comps initial_slashes (new_comps @ [component]) comps
      else if new_comps \<noteq> [] then normpath_comps initial_slashes (butlast new_comps) comps
      else normpath_comps initial_slashes new_comps comps)"

definition normpath :: "string \<Rightarrow> string" where
  "normpath path =
     (if path = [] then ''.''
      else
        let initial_slashes =
              (if prefix ''/'' path
               then (if prefix ''//'' path \<and> \<not> prefix ''///'' path then 2 else 1)
               else (0::nat));
            comps = normpath_comps initial_slashes [] (split_on CHR ''/'' path);
            path' = replicate initial_slashes CHR ''/'' @ join_with ''/'' comps
        in if path' = [] then ''.'' else path')"

definition realpath :: "string \<Rightarrow> string" where
  "realpath path = normpath path"

text \<open>
  The exceptions of the code, each with its message. \<^verbatim>\<open>json.JSONDecodeError\<close>,
  \<^verbatim>\<open>UnicodeDecodeError\<close> and \<^verbatim>\<open>binascii.Error\<close> are subclasses of \<^verbatim>\<open>ValueError\<close>;
  \<open>OtherError\<close> stands for an exception of any other class.
\<close>

datatype py_error =
    ValueError string
  | JSONDecodeError string
  | UnicodeDecodeError string
  | BinasciiError string
  | IndexError string
  | OtherError string

text \<open>
  The validation loop of \<^verbatim>\<open>run_conversion\<close> over \<^verbatim>\<open>z.namelist()\<close>: the first member
  whose resolved path does not start with the resolved extraction directory raises.
\<close>

fun validate_members :: "string \<Rightarrow> string list \<Rightarrow> py_error + unit" where
  "validate_members extract_dir [] = Inr ()"
| "validate_members extract_dir (member # rest) =
     (let member_path = realpath (path_join extract_dir member)
      in if \<not> prefix (realpath extract_dir) member_path
         then Inl (ValueError (''Unsafe path in .docx archive: '' @ member @
                 ''. The file may be malicious.''))
         else validate_members extract_dir rest)"

text \<open>
  Where \<^verbatim>\<open>ZipFile.extractall\<close> writes a member: the standard library drops the empty,
  \<^verbatim>\<open>.\<close> and \<^verbatim>\<open>..\<close> components of the member name, joins the rest to the target
  directory and normalizes.
\<close>

definition extract_target :: "string \<Rightarrow> string \<Rightarrow> string" where
  "extract_target targetpath member =
     normpath (path_join targetpath
       (join_with ''/''
          (filter (\<lambda>x. x \<noteq> [] \<and> x \<noteq> ''.'' \<and> x \<noteq> ''..'') (split_on CHR ''/'' member))))"

text \<open>
  The extraction step of \<^verbatim>\<open>run_conversion\<close>: validation, then \<^verbatim>\<open>z.extractall\<close>. The
  result is the error raised or the list of paths written.
\<close>

definition extract_archive :: "string \<Rightarrow> string list \<Rightarrow> py_error + string list" where
  "extract_archive extract_dir namelist =
     (case validate_members extract_dir namelist of
        Inl e \<Rightarrow> Inl e
      | Inr u \<Rightarrow> Inr (map (extract_target extract_dir) namelist))"

text \<open>
  The specification's notion of a resolved path lying inside the extraction root: it is
  the root or lies below it.
\<close>

definition inside_root :: "string \<Rightarrow> string \<Rightarrow> bool" where
  "inside_root r p = (p = r \<or> prefix (r @ ''/'') p)"

text \<open>
  The extracted package on disk: a directory is the list of its entries in listing
  order. \<^verbatim>\<open>os.walk\<close> yields, top down, each directory with the names of its
  subdirectories and of its files.
\<close>

datatype fs_node = File | Dir "(string \<times> fs_node) list"

fun walk :: "string \<Rightarrow> (string \<times> fs_node) list \<Rightarrow> (string \<times> string list \<times> string list) list"
  and walk_subdirs :: "string \<Rightarrow> (string \<times> fs_node) list \<Rightarrow> (string \<times> string list \<times> string list) list"
where
  "walk top_dir entries =
     (top_dir, [name. (name, Dir sub) \<leftarrow> entries], [name. (name, File) \<leftarrow> entries]) #
     walk_subdirs top_dir entries"
| "walk_subdirs top_dir [] = []"
| "walk_subdirs top_dir ((name, File) # rest) = walk_subdirs top_dir rest"
| "walk_subdirs top_dir ((name, Dir sub) # rest) =
     walk (path_join top_dir name) sub @ walk_subdirs top_dir rest"





section \<open>Strings\<close>

text \<open>
  The string methods the matcher uses. Characters are those of the Latin-1 range:
  \<^verbatim>\<open>str.isspace\<close>, \<^verbatim>\<open>str.lower\<close>, \<^verbatim>\<open>str.strip\<close> and \<^verbatim>\<open>str.split()\<close> on runs of white space.
\<close>

definition isspace :: "char \<Rightarrow> bool" where
  "isspace c = (of_char c \<in> {9, 10, 11, 12, 13, 28, 29, 30, 31, 32, 133, 160 :: nat})"

definition lower_char :: "char \<Rightarrow> char" where
  "lower_char c =
     (let n = of_char c :: nat
      in if (65 \<le> n \<and> n \<le> 90) \<or> (192 \<le> n \<and> n \<le> 222 \<and> n \<noteq> 215)
         then char_of (n + 32) else c)"

definition lower :: "string \<Rightarrow> string" where
  "lower s = map lower_char s"

definition lstrip :: "string \<Rightarrow> string" where
  "lstrip s = dropWhile isspace s"

definition rstrip :: "string \<Rightarrow> string" where
  "rstrip s = rev (dropWhile isspace (rev s))"

definition strip :: "string \<Rightarrow> string" where
  "strip s = rstrip (lstrip s)"

function split_ws :: "string \<Rightarrow> string list" where
  "split_ws [] = []"
| "split_ws (c # cs) =
     (if isspace c then split_ws (dropWhile isspace cs)
      else (c # takeWhile (\<lambda>x. \<not> isspace x) cs) # split_ws (dropWhile (\<lambda>x. \<not> isspace x) cs))"
  by pat_completeness auto
termination
  by (relation "measure length") (auto simp: le_imp_less_Suc length_dropWhile_le)


section \<open>Library matcher\<close>

text \<open>
  A library entry as the remote API returns it, with the fields the matcher reads; a
  key that is absent reads as the default the code gives to \<^verbatim>\<open>.get\<close> (the empty string,
  the empty list). A citation record is a dictionary in which each of the keys
  \<^verbatim>\<open>title\<close>, \<^verbatim>\<open>authors\<close>, \<^verbatim>\<open>year\<close>, \<^verbatim>\<open>doi\<close>, \<^verbatim>\<open>isbn\<close> may be absent.
\<close>

record creator =
  creator_type :: string
  creator_lastName :: string
  creator_firstName :: string
  creator_name :: string

record item_data =
  data_DOI :: string
  data_ISBN :: string
  data_date :: string
  data_title :: string
  data_creators :: "creator list"

record item =
  item_key :: string
  item_data :: item_data

record author =
  family :: string
  given :: string

record citation_info =
  ci_title :: "string option"
  ci_authors :: "author list option"
  ci_year :: "string option"
  ci_doi :: "string option"
  ci_isbn :: "string option"

text \<open>Stages 1 and 2 of \<^verbatim>\<open>find_match\<close>: the first entry with the same DOI, then ISBN.\<close>

definition doi_stage :: "item list \<Rightarrow> citation_info \<Rightarrow> item option" where
  "doi_stage items citation_info =
     (case ci_doi citation_info of
        None \<Rightarrow> None
      | Some d \<Rightarrow>
          let doi = strip (lower d)
          in List.find (\<lambda>item.
               let item_doi = strip (lower (data_DOI (item_data item)))
               in item_doi \<noteq> [] \<and> item_doi = doi) items)"

definition strip_isbn :: "string \<Rightarrow> string" where
  "strip_isbn s = filter (\<lambda>c. \<not> (isspace c \<or> c = CHR ''-'')) s"

definition isbn_stage :: "item list \<Rightarrow> citation_info \<Rightarrow> item option" where
  "isbn_stage items citation_info =
     (case ci_isbn citation_info of
        None \<Rightarrow> None
      | Some i \<Rightarrow>
          let isbn = strip_isbn i
          in List.find (\<lambda>item.
               let item_isbn = strip_isbn (data_ISBN (item_data item))
               in item_isbn \<noteq> [] \<and> item_isbn = isbn) items)"

text \<open>
  Stage 3. The score of one entry: the body of the loop over \<^verbatim>\<open>items\<close> up to the
  comparison. Python computes the ratio and the score in binary floating point; the
  model computes them exactly, in rational numbers.
\<close>

definition creator_matches :: "string \<Rightarrow> creator \<Rightarrow> bool" where
  "creator_matches target_family creator =
     (let creator_last = lower (creator_lastName creator);
          creator_name = lower (creator_name creator)
      in (creator_last \<noteq> [] \<and> creator_last = target_family) \<or>
         (creator_name \<noteq> [] \<and>
            (creator_name = target_family \<or> contains target_family creator_name)))"

definition item_score :: "citation_info \<Rightarrow> item \<Rightarrow> rat" where
  "item_score citation_info item =
     (let target_title = lower (case ci_title citation_info of None \<Rightarrow> [] | Some t \<Rightarrow> t);
          target_year = (case ci_year citation_info of None \<Rightarrow> [] | Some y \<Rightarrow> y);
          target_authors = (case ci_authors citation_info of None \<Rightarrow> [] | Some a \<Rightarrow> a);
          target_family = (case target_authors of [] \<Rightarrow> [] | a # as \<Rightarrow> lower (family a));
          data = item_data item;
          score_year =
            (if target_year \<noteq> [] \<and> contains target_year (data_date data) then 2 else 0);
          item_creators = data_creators data;
          score_author =
            (if target_family \<noteq> [] \<and> item_creators \<noteq> []
                \<and> list_ex (creator_matches target_family) item_creators
             then 3 else 0);
          item_title = lower (data_title data);
          target_words = set (split_ws target_title);
          item_words = set (split_ws item_title);
          score_title =
            (if target_title \<noteq> [] \<and> item_title \<noteq> [] \<and> target_words \<noteq> {} \<and> item_words \<noteq> {}
             then
               let overlap = card (target_words \<inter> item_words);
                   ratio = of_nat overlap / of_nat (max (card target_words) (card item_words))
               in if ratio > 6 / 10 then 5 * ratio else 0
             else 0)
      in score_year + score_author + score_title)"

text \<open>
  The loop, with \<^verbatim>\<open>best_match\<close> and \<^verbatim>\<open>best_score\<close> as its state:
  \<^verbatim>\<open>if score > best_score and score >= 3\<close>.
\<close>

fun fuzzy_loop :: "(item \<Rightarrow> rat) \<Rightarrow> item option \<Rightarrow> rat \<Rightarrow> item list \<Rightarrow> item option" where
  "fuzzy_loop sc best_match best_score [] = best_match"
| "fuzzy_loop sc best_match best_score (item # rest) =
     (let score = sc item
      in if score > best_score \<and> score \<ge> 3 then fuzzy_loop sc (Some item) score rest
         else fuzzy_loop sc best_match best_score rest)"

definition fuzzy_stage :: "item list \<Rightarrow> citation_info \<Rightarrow> item option" where
  "fuzzy_stage items citation_info = fuzzy_loop (item_score citation_info) None 0 items"

text \<open>
  \<^verbatim>\<open>find_match\<close> with the memoization cache as explicit state. The cache key of the
  source is the canonical JSON text of the record, which determines the record; the
  model keys the cache by the record.
\<close>

type_synonym match_cache = "citation_info \<Rightarrow> item option option"

definition match_result :: "item list \<Rightarrow> citation_info \<Rightarrow> item option" where
  "match_result items citation_info =
     (case doi_stage items citation_info of
        Some item \<Rightarrow> Some item
      | None \<Rightarrow>
          (case isbn_stage items citation_info of
             Some item \<Rightarrow> Some item
           | None \<Rightarrow> fuzzy_stage items citation_info))"

definition find_match ::
  "match_cache \<Rightarrow> item list \<Rightarrow> citation_info \<Rightarrow> item option \<times> match_cache" where
  "find_match cache items citation_info =
     (case cache citation_info of
        Some cached \<Rightarrow> (cached, cache)
      | None \<Rightarrow>
          let result = match_result items citation_info
          in (result, cache(citation_info \<mapsto> result)))"

section \<open>Regular expressions\<close>

text \<open>
  The patterns of \<^verbatim>\<open>find_match_by_display_text\<close> are built from literals, the classes
  \<^verbatim>\<open>\d\<close>, \<^verbatim>\<open>\s\<close>, \<^verbatim>\<open>[A-Z]\<close> and \<^verbatim>\<open>.\<close>, sequence, alternation, \<^verbatim>\<open>?\<close>, \<^verbatim>\<open>*\<close>, the
  anchors \<^verbatim>\<open>^\<close> and \<^verbatim>\<open>$\<close> and the word boundary. \<open>rmatch\<close> is a backtracking matcher as
  Python's: from position \<open>i\<close> it lists the positions where a match can end, the
  preferred one first (alternatives left to right, repetitions greedy). Its third
  argument bounds the number of rounds of a repetition; every round consumes a
  character, so the length of the subject is enough.
\<close>

datatype cclass = Digit | Space | Upper | AnyChar

datatype regex =
    Lit char
  | Cls cclass
  | Seq regex regex
  | Alt regex regex
  | Opt regex
  | Star regex
  | Eps
  | Bol
  | Eol
  | WordB

definition is_word :: "char \<Rightarrow> bool" where
  "is_word c =
     (let n = of_char c :: nat
      in (48 \<le> n \<and> n \<le> 57) \<or> (65 \<le> n \<and> n \<le> 90) \<or> (97 \<le> n \<and> n \<le> 122) \<or> n = 95
         \<or> n \<in> {170, 178, 179, 181, 185, 186, 188, 189, 190}
         \<or> (192 \<le> n \<and> n \<noteq> 215 \<and> n \<noteq> 247))"

fun in_class :: "cclass \<Rightarrow> char \<Rightarrow> bool" where
  "in_class Digit c = (48 \<le> (of_char c :: nat) \<and> (of_char c :: nat) \<le> 57)"
| "in_class Space c = isspace c"
| "in_class Upper c = (65 \<le> (of_char c :: nat) \<and> (of_char c :: nat) \<le> 90)"
| "in_class AnyChar c = True"

fun rmatch :: "bool \<Rightarrow> string \<Rightarrow> nat \<Rightarrow> regex \<Rightarrow> nat \<Rightarrow> nat list" where
  "rmatch ic s fuel (Lit c) i =
     (if i < length s \<and> (if ic then lower_char (s ! i) = lower_char c else s ! i = c)
      then [Suc i] else [])"
| "rmatch ic s fuel (Cls k) i = (if i < length s \<and> in_class k (s ! i) then [Suc i] else [])"
| "rmatch ic s fuel (Seq r1 r2) i = concat (map (rmatch ic s fuel r2) (rmatch ic s fuel r1 i))"
| "rmatch ic s fuel (Alt r1 r2) i = rmatch ic s fuel r1 i @ rmatch ic s fuel r2 i"
| "rmatch ic s fuel (Opt r) i = rmatch ic s fuel r i @ [i]"
| "rmatch ic s 0 (Star r) i = [i]"
| "rmatch ic s (Suc fuel) (Star r) i =
     concat (map (\<lambda>j. if i < j then rmatch ic s fuel (Star r) j else [])
       (rmatch ic s (Suc fuel) r i)) @ [i]"
| "rmatch ic s fuel Eps i = [i]"
| "rmatch ic s fuel Bol i = (if i = 0 then [i] else [])"
| "rmatch ic s fuel Eol i =
     (if i = length s \<or> (Suc i = length s \<and> s ! i = CHR 0x0A) then [i] else [])"
| "rmatch ic s fuel WordB i =
     (if (0 < i \<and> is_word (s ! (i - 1))) \<noteq> (i < length s \<and> is_word (s ! i)) then [i] else [])"

text \<open>
  \<^verbatim>\<open>re.search\<close>, \<^verbatim>\<open>re.sub\<close> and \<^verbatim>\<open>re.split\<close> scan the start positions from the left
  and skip the positions inside the previous match. The patterns used by the matcher
  cannot match the empty string; an empty match is passed over.
\<close>

definition match_at :: "bool \<Rightarrow> regex \<Rightarrow> string \<Rightarrow> nat \<Rightarrow> nat option" where
  "match_at ic r s i = (case rmatch ic s (length s) r i of [] \<Rightarrow> None | e # es \<Rightarrow> Some e)"

fun search_from :: "bool \<Rightarrow> regex \<Rightarrow> string \<Rightarrow> nat list \<Rightarrow> (nat \<times> nat) option" where
  "search_from ic r s [] = None"
| "search_from ic r s (i # rest) =
     (case match_at ic r s i of Some e \<Rightarrow> Some (i, e) | None \<Rightarrow> search_from ic r s rest)"

definition re_search :: "bool \<Rightarrow> regex \<Rightarrow> string \<Rightarrow> (nat \<times> nat) option" where
  "re_search ic r s = search_from ic r s [0 ..< Suc (length s)]"

fun sub_scan :: "bool \<Rightarrow> regex \<Rightarrow> string \<Rightarrow> string \<Rightarrow> nat \<Rightarrow> nat list \<Rightarrow> string" where
  "sub_scan ic r repl s skip [] = []"
| "sub_scan ic r repl s skip (i # rest) =
     (if i < skip then sub_scan ic r repl s skip rest
      else (case match_at ic r s i of
              Some e \<Rightarrow>
                if i < e then repl @ sub_scan ic r repl s e rest
                else (if i < length s then [s ! i] else []) @ sub_scan ic r repl s skip rest
            | None \<Rightarrow> (if i < length s then [s ! i] else []) @ sub_scan ic r repl s skip rest))"

definition re_sub :: "bool \<Rightarrow> regex \<Rightarrow> string \<Rightarrow> string \<Rightarrow> string" where
  "re_sub ic r repl s = sub_scan ic r repl s 0 [0 ..< Suc (length s)]"

fun split_scan :: "bool \<Rightarrow> regex \<Rightarrow> string \<Rightarrow> nat \<Rightarrow> string \<Rightarrow> nat list \<Rightarrow> string list" where
  "split_scan ic r s skip piece [] = [piece]"
| "split_scan ic r s skip piece (i # rest) =
     (if i < skip then split_scan ic r s skip piece rest
      else (case match_at ic r s i of
              Some e \<Rightarrow>
                if i < e then piece # split_scan ic r s e [] rest
                else split_scan ic r s skip (piece @ (if i < length s then [s ! i] else [])) rest
            | None \<Rightarrow>
                split_scan ic r s skip (piece @ (if i < length s then [s ! i] else [])) rest))"

definition re_split :: "bool \<Rightarrow> regex \<Rightarrow> string \<Rightarrow> string list" where
  "re_split ic r s = split_scan ic r s 0 [] [0 ..< Suc (length s)]"

fun seqs :: "regex list \<Rightarrow> regex" where
  "seqs [] = Eps"
| "seqs [r] = r"
| "seqs (r # rs) = Seq r (seqs rs)"

fun alts :: "regex \<Rightarrow> regex list \<Rightarrow> regex" where
  "alts r [] = r"
| "alts r (r' # rs) = Alt r (alts r' rs)"

definition lit :: "string \<Rightarrow> regex" where
  "lit w = seqs (map Lit w)"

definition plus :: "regex \<Rightarrow> regex" where
  "plus r = Seq r (Star r)"


section \<open>Matching by display text\<close>

text \<open>
  The patterns, in the order of their use: \<^verbatim>\<open>(\d{4})\<close>;
  \<^verbatim>\<open>\s*et\s+al\.?\s*$\<close>; the prefix words
  \<^verbatim>\<open>^(?:vgl\.|cf\.|cfr\.|see(?:\s+also)?|voir(?:\s+aussi)?|s\.(?:a\.)?|v\u00e9ase|vedi|ver\b|veja|zie)\s*\<close>
  (with e acute in the seventh word); \<^verbatim>\<open>\s*&\s*|\s+and\s+|\s*,\s*\<close>; the connectors
  \<^verbatim>\<open>\s+und\s+\<close> and so on; \<^verbatim>\<open>\s+[A-Z]\.?\s*$\<close>. All but the first and the last
  are used with \<^verbatim>\<open>re.IGNORECASE\<close>.
\<close>

definition ws :: regex where "ws = Cls Space"

definition year_re :: regex where
  "year_re = seqs [Cls Digit, Cls Digit, Cls Digit, Cls Digit]"

definition et_al_re :: regex where
  "et_al_re = seqs [Star ws, lit ''et'', plus ws, lit ''al'', Opt (Lit CHR ''.''), Star ws, Eol]"

definition prefix_re :: regex where
  "prefix_re =
     seqs [Bol,
       alts (lit ''vgl.'')
         [lit ''cf.'', lit ''cfr.'',
          Seq (lit ''see'') (Opt (Seq (plus ws) (lit ''also''))),
          Seq (lit ''voir'') (Opt (Seq (plus ws) (lit ''aussi''))),
          Seq (lit ''s.'') (Opt (lit ''a.'')),
          lit [CHR ''v'', CHR 0xE9, CHR ''a'', CHR ''s'', CHR ''e''],
          lit ''vedi'', Seq (lit ''ver'') WordB, lit ''veja'', lit ''zie''],
       Star ws]"

definition author_sep_re :: regex where
  "author_sep_re =
     alts (seqs [Star ws, Lit CHR ''&'', Star ws])
       [seqs [plus ws, lit ''and'', plus ws],
        seqs [Star ws, Lit CHR '','', Star ws]]"

definition connector_re :: "string \<Rightarrow> regex" where
  "connector_re w = seqs [plus ws, lit w, plus ws]"

definition initial_re :: regex where
  "initial_re = seqs [plus ws, Cls Upper, Opt (Lit CHR ''.''), Star ws, Eol]"

definition strip_chars :: "string \<Rightarrow> string \<Rightarrow> string" where
  "strip_chars chars s =
     rev (dropWhile (\<lambda>c. c \<in> set chars) (rev (dropWhile (\<lambda>c. c \<in> set chars) s)))"

definition rstrip_chars :: "string \<Rightarrow> string \<Rightarrow> string" where
  "rstrip_chars chars s = rev (dropWhile (\<lambda>c. c \<in> set chars) (rev s))"

text \<open>The loop over the connector patterns, which stops at the first that applies.\<close>

fun split_connectors :: "string list \<Rightarrow> string \<Rightarrow> string" where
  "split_connectors [] primary_author = primary_author"
| "split_connectors (connector # rest) primary_author =
     (let parts = re_split True (connector_re connector) primary_author
      in if length parts > 1 \<and> length (split_ws (hd parts)) \<le> 2 then strip (hd parts)
         else split_connectors rest primary_author)"

text \<open>
  The first half of the loop body of \<^verbatim>\<open>find_match_by_display_text\<close>, for one citation
  group: the year, the author portion and the primary author, or None where the source
  says \<^verbatim>\<open>continue\<close>.
\<close>

definition parse_citation_part :: "string \<Rightarrow> (string \<times> string \<times> string) option" where
  "parse_citation_part part0 =
     (let part = strip part0
      in if part = [] then None
         else
           (case re_search False year_re part of
              None \<Rightarrow> None
            | Some (year_start, year_end) \<Rightarrow>
                let year = slice part year_start year_end;
                    author_portion0 = strip (rstrip_chars '','' (strip (take year_start part)));
                    author_portion1 = strip (re_sub True et_al_re [] author_portion0)
                in if author_portion1 = [] then None
                   else
                     let author_portion = strip (re_sub True prefix_re [] author_portion1);
                         primary_author0 = strip (hd (re_split True author_sep_re author_portion));
                         primary_author1 =
                           split_connectors [''und'', ''et'', ''y'', ''e'', ''en''] primary_author0
                     in if primary_author1 = [] then None
                        else Some (year, author_portion,
                               strip (re_sub False initial_re [] primary_author1))))"

text \<open>
  The second half: the candidate family names, the attempts with each candidate, then
  with the whole author phrase, then as a title.
\<close>

definition candidates_of :: "string \<Rightarrow> string list" where
  "candidates_of primary_author =
     (let words = split_ws primary_author
      in [primary_author] @ (if length words > 1 then [last words] else []))"

definition author_year_info :: "string \<Rightarrow> string \<Rightarrow> citation_info" where
  "author_year_info candidate year =
     \<lparr>ci_title = None, ci_authors = Some [\<lparr>family = candidate, given = []\<rparr>],
      ci_year = Some year, ci_doi = None, ci_isbn = None\<rparr>"

fun try_candidates ::
  "match_cache \<Rightarrow> item list \<Rightarrow> string \<Rightarrow> string list \<Rightarrow> item option \<times> match_cache" where
  "try_candidates cache items year [] = (None, cache)"
| "try_candidates cache items year (candidate # rest) =
     (case find_match cache items (author_year_info candidate year) of
        (Some result, cache') \<Rightarrow> (Some result, cache')
      | (None, cache') \<Rightarrow> try_candidates cache' items year rest)"

definition match_citation_part ::
  "match_cache \<Rightarrow> item list \<Rightarrow> string \<Rightarrow> item option \<times> match_cache" where
  "match_citation_part cache items part =
     (case parse_citation_part part of
        None \<Rightarrow> (None, cache)
      | Some (year, author_portion, primary_author) \<Rightarrow>
          let words = split_ws primary_author;
              (result1, cache1) = try_candidates cache items year (candidates_of primary_author);
              (result2, cache2) =
                (if result1 = None \<and> length words > 2 then
                   let full_author = strip (re_sub False initial_re [] author_portion)
                   in if full_author \<noteq> primary_author
                      then find_match cache1 items (author_year_info full_author year)
                      else (result1, cache1)
                 else (result1, cache1))
          in if result2 = None \<and> length words > 2
             then find_match cache2 items
                    \<lparr>ci_title = Some author_portion, ci_authors = Some [],
                     ci_year = Some year, ci_doi = None, ci_isbn = None\<rparr>
             else (result2, cache2))"

fun match_parts :: "match_cache \<Rightarrow> item list \<Rightarrow> string list \<Rightarrow> item list \<times> match_cache" where
  "match_parts cache items [] = ([], cache)"
| "match_parts cache items (part # rest) =
     (case match_citation_part cache items part of
        (result, cache') \<Rightarrow>
          (case match_parts cache' items rest of
             (matches, cache'') \<Rightarrow>
               ((case result of Some r \<Rightarrow> [r] | None \<Rightarrow> []) @ matches, cache'')))"

definition display_text_parts :: "string \<Rightarrow> string list" where
  "display_text_parts display_text =
     map strip (split_on CHR '';'' (strip_chars ''()[] '' display_text))"

definition find_match_by_display_text ::
  "match_cache \<Rightarrow> item list \<Rightarrow> string \<Rightarrow> item list \<times> match_cache" where
  "find_match_by_display_text cache items display_text =
     (if display_text = [] then ([], cache)
      else match_parts cache items (display_text_parts display_text))"

section \<open>Payload decoder\<close>

text \<open>
  A decoded payload is a JSON value; the type of its numbers is left open. Python's
  \<^verbatim>\<open>None\<close> is \<open>JNull\<close>, also where \<^verbatim>\<open>decode_citavi_payload\<close> itself returns
  \<^verbatim>\<open>None\<close>.

  The decoder calls three functions of the standard library, which are parameters of
  the model: \<^verbatim>\<open>base64.b64decode\<close>, \<^verbatim>\<open>bytes.decode("utf-8", errors="replace")\<close>, which
  raises nothing, and \<^verbatim>\<open>json.loads\<close>. A call returns its value or the exception it
  raises.
\<close>

datatype 'n json =
    JNull
  | JBool bool
  | JNum 'n
  | JStr string
  | JArr "'n json list"
  | JObj "(string \<times> 'n json) list"

record 'n codecs =
  b64decode :: "string \<Rightarrow> py_error + string"
  utf8_decode :: "string \<Rightarrow> string"
  json_loads :: "string \<Rightarrow> py_error + 'n json"

text \<open>
  What the two handlers catch:
  \<^verbatim>\<open>except (json.JSONDecodeError, ValueError, UnicodeDecodeError, binascii.Error)\<close>
  catches the class \<^verbatim>\<open>ValueError\<close> with its subclasses, and
  \<^verbatim>\<open>except json.JSONDecodeError\<close> that class alone.
\<close>

fun is_ValueError :: "py_error \<Rightarrow> bool" where
  "is_ValueError (ValueError m) = True"
| "is_ValueError (JSONDecodeError m) = True"
| "is_ValueError (UnicodeDecodeError m) = True"
| "is_ValueError (BinasciiError m) = True"
| "is_ValueError _ = False"

fun is_JSONDecodeError :: "py_error \<Rightarrow> bool" where
  "is_JSONDecodeError (JSONDecodeError m) = True"
| "is_JSONDecodeError _ = False"

text \<open>The stripped texts of the instruction-text elements that have a text.\<close>

definition instr_parts :: "element \<Rightarrow> string list" where
  "instr_parts sdt_content =
     concat (map (\<lambda>instr. case elem_text instr of
                              None \<Rightarrow> []
                            | Some t \<Rightarrow> if t \<noteq> [] then [strip t] else [])
       (iter (W ''instrText'') sdt_content))"

text \<open>
  \<^verbatim>\<open>raw.split(None, 1)\<close> and the list
  \<^verbatim>\<open>[raw, raw.split(None, 1)[-1] if " " in raw else raw]\<close>, whose index raises on an
  empty list.
\<close>

definition split_ws1 :: "string \<Rightarrow> string list" where
  "split_ws1 s =
     (case lstrip s of
        [] \<Rightarrow> []
      | c # cs \<Rightarrow>
          let first = takeWhile (\<lambda>x. \<not> isspace x) (c # cs);
              rest = lstrip (dropWhile (\<lambda>x. \<not> isspace x) (c # cs))
          in if rest = [] then [first] else [first, rest])"

definition payload_candidates :: "string \<Rightarrow> py_error + string list" where
  "payload_candidates raw =
     (if CHR '' '' \<in> set raw
      then (case split_ws1 raw of
              [] \<Rightarrow> Inl (IndexError ''list index out of range'')
            | p # ps \<Rightarrow> Inr [raw, last (p # ps)])
      else Inr [raw, raw])"

text \<open>
  The loop over the candidates: the first that decodes is returned (\<open>Some\<close>), a failure
  that the handler catches leads to the next candidate, any other is raised.
\<close>

fun b64_loop :: "'n codecs \<Rightarrow> string list \<Rightarrow> py_error + 'n json option" where
  "b64_loop L [] = Inr None"
| "b64_loop L (candidate0 # rest) =
     (let candidate = strip candidate0
      in if candidate = [] then b64_loop L rest
         else (case b64decode L candidate of
                 Inl e \<Rightarrow> if is_ValueError e then b64_loop L rest else Inl e
               | Inr bytes \<Rightarrow>
                   (case json_loads L (utf8_decode L bytes) of
                      Inl e \<Rightarrow> if is_ValueError e then b64_loop L rest else Inl e
                    | Inr v \<Rightarrow> Inr (Some v))))"

text \<open>The last strategy: \<^verbatim>\<open>re.search(r'\{.*\}', raw, re.DOTALL)\<close> and \<^verbatim>\<open>json.loads\<close>.\<close>

definition brace_re :: regex where
  "brace_re = seqs [Lit CHR ''{'', Star (Cls AnyChar), Lit CHR ''}'']"

definition json_object_step :: "'n codecs \<Rightarrow> string \<Rightarrow> py_error + 'n json" where
  "json_object_step L raw =
     (case re_search False brace_re raw of
        None \<Rightarrow> Inr JNull
      | Some (start, stop) \<Rightarrow>
          (case json_loads L (slice raw start stop) of
             Inl e \<Rightarrow> if is_JSONDecodeError e then Inr JNull else Inl e
           | Inr v \<Rightarrow> Inr v))"

definition decode_citavi_payload :: "'n codecs \<Rightarrow> element \<Rightarrow> py_error + 'n json" where
  "decode_citavi_payload L sdt =
     (case find_child (W ''sdtContent'') sdt of
        None \<Rightarrow> Inr JNull
      | Some sdt_content \<Rightarrow>
          if instr_parts sdt_content = [] then Inr JNull
          else
            let raw = concat (instr_parts sdt_content)
            in (case payload_candidates raw of
                  Inl e \<Rightarrow> Inl e
                | Inr candidates \<Rightarrow>
                    (case b64_loop L candidates of
                       Inl e \<Rightarrow> Inl e
                     | Inr (Some v) \<Rightarrow> Inr v
                     | Inr None \<Rightarrow> json_object_step L raw)))"

section \<open>An example library\<close>

text \<open>Two library entries for the examples below: a work by Smith of 2019, under a given key,
  and a report of the World Health Organization of 2020.\<close>

definition smith_2019 :: "string \<Rightarrow> item" where
  "smith_2019 k =
     \<lparr>item_key = k,
      item_data = \<lparr>data_DOI = [], data_ISBN = [], data_date = ''2019-05-01'',
        data_title = ''Advances in Molecular Biology and Chemistry'',
        data_creators = [\<lparr>creator_type = ''author'', creator_lastName = ''Smith'',
          creator_firstName = ''Ann'', creator_name = []\<rparr>]\<rparr>\<rparr>"

definition who_2020 :: item where
  "who_2020 =
     \<lparr>item_key = ''K3'',
      item_data = \<lparr>data_DOI = [], data_ISBN = [], data_date = ''2020'',
        data_title = ''World health statistics'',
        data_creators = [\<lparr>creator_type = ''author'', creator_lastName = [],
          creator_firstName = [], creator_name = ''World Health Organization''\<rparr>]\<rparr>\<rparr>"

text \<open>
  For the examples of the decoder: a JSON object whose number has 4301 digits, a table
  of what the library functions return on the texts used (CPython from 3.11 on refuses
  to convert a decimal integer of more than 4300 digits and raises \<^verbatim>\<open>ValueError\<close>),
  and a placeholder with a given instruction text.
\<close>

definition long_number_object :: string where
  \<open>long_number_object = ''{"Year": '' @ replicate 4301 CHR ''1'' @ ''}''\<close>

definition toy_codecs :: "nat codecs" where
  \<open>toy_codecs =
     \<lparr>b64decode = (\<lambda>s. if s = ''eyJZZWFyIjogMjAxOX0='' then Inr ''{"Year": 2019}''
                        else Inl (BinasciiError ''Incorrect padding'')),
      utf8_decode = (\<lambda>bytes. bytes),
      json_loads = (\<lambda>s. if s = ''{"Year": 2019}'' then Inr (JObj [(''Year'', JNum 2019)])
                         else if s = long_number_object
                           then Inl (ValueError
                             ''Exceeds the limit (4300 digits) for integer string conversion'')
                         else Inl (JSONDecodeError ''Expecting value''))\<rparr>\<close>

definition placeholder_sdt :: "string \<Rightarrow> element" where
  "placeholder_sdt instr =
     Element None (W ''sdt'') [] None
       [Element None (W ''sdtPr'') [] None
          [Element None (W ''tag'') [(W ''val'', ''CitaviPlaceholder#1'')] None []],
        Element None (W ''sdtContent'') [] None
          [fld_char_run ''begin'', instr_run instr, fld_char_run ''separate'', fld_char_run ''end'']]"

fun is_unclosed :: "issue \<Rightarrow> bool" where
  "is_unclosed (UnclosedFields n) = True"
| "is_unclosed _ = False"


section \<open>Placeholder scanner\<close>

text \<open>
  \<^verbatim>\<open>etree.parse(xml_path, parser).getroot()\<close>: the parser gives every element of the
  document its identity, the path from the root.
\<close>

fun label :: "nat list \<Rightarrow> element \<Rightarrow> element"
  and label_kids :: "nat list \<Rightarrow> nat \<Rightarrow> element list \<Rightarrow> element list"
where
  "label p (Element r t a x cs) = Element (Some p) t a x (label_kids p 0 cs)"
| "label_kids p i [] = []"
| "label_kids p i (c # cs) = label (p @ [i]) c # label_kids p (Suc i) cs"

text \<open>
  The value of the \<^verbatim>\<open>w:val\<close> attribute of \<^verbatim>\<open>sdt.find(w:sdtPr).find(w:tag)\<close>, read by
  \<^verbatim>\<open>find_citavi_sdts\<close> and by \<^verbatim>\<open>remove_citavi_bibliography\<close>; none when one of the two
  elements is missing (\<^verbatim>\<open>continue\<close>).
\<close>

definition citavi_tag :: "element \<Rightarrow> string option" where
  "citavi_tag sdt =
     (case find_child (W ''sdtPr'') sdt of
        None \<Rightarrow> None
      | Some sdt_pr \<Rightarrow>
          (case find_child (W ''tag'') sdt_pr of
             None \<Rightarrow> None
           | Some tag_elem \<Rightarrow> Some (get tag_elem (W ''val'') [])))"

text \<open>\<^verbatim>\<open>tag_val.startswith("CitaviPlaceholder#")\<close>.\<close>

definition is_citavi_sdt :: "element \<Rightarrow> bool" where
  "is_citavi_sdt sdt =
     (case citavi_tag sdt of None \<Rightarrow> False | Some tag_val \<Rightarrow> prefix ''CitaviPlaceholder#'' tag_val)"




section \<open>Conversion engine: resolving one placeholder\<close>

text \<open>
  What \<^verbatim>\<open>process_xml_file\<close> takes from outside this development: the three library
  functions of the decoder, \<^verbatim>\<open>extract_citation_info_from_citavi\<close>, and the string
  \<^verbatim>\<open>json.dumps(build_zotero_citation_json(zotero_items, user_id), ensure_ascii=False)\<close>,
  which holds a fresh random \<^verbatim>\<open>citationID\<close> at every call and so depends on the
  placeholder at hand as well as on the entries.
\<close>

record 'n env =
  codecs :: "'n codecs"
  extract_citation_info_from_citavi :: "'n json \<Rightarrow> citation_info list"
  citation_json_str :: "nat list \<Rightarrow> item list \<Rightarrow> string"





section \<open>Document rewriter: replacing a placeholder\<close>

text \<open>
  The loops of \<^verbatim>\<open>process_xml_file\<close> and of \<^verbatim>\<open>remove_citavi_bibliography\<close> run over
  elements collected before the first change of the tree, so an element met later may
  already have left the document together with an ancestor. The state of the rewriter
  is therefore a forest: the tree of the document and the subtrees taken out of it so
  far, which the collected references still reach. An element is looked up by its
  identity, in the document first.
\<close>

fun find_ref :: "nat list \<Rightarrow> element \<Rightarrow> element option"
  and find_ref_kids :: "nat list \<Rightarrow> element list \<Rightarrow> element option"
where
  "find_ref i (Element r t a x cs) =
     (if r = Some i then Some (Element r t a x cs) else find_ref_kids i cs)"
| "find_ref_kids i [] = None"
| "find_ref_kids i (c # cs) =
     (case find_ref i c of Some e \<Rightarrow> Some e | None \<Rightarrow> find_ref_kids i cs)"


text \<open>
  \<^verbatim>\<open>idx = list(parent).index(sdt); parent.remove(sdt)\<close> followed by the insertion of new
  children from \<^verbatim>\<open>idx\<close> on: in the list of children, and in the tree that holds the parent.
\<close>

fun replace_first :: "nat list \<Rightarrow> element list \<Rightarrow> element list \<Rightarrow> element list" where
  "replace_first i new [] = []"
| "replace_first i new (c # cs) =
     (if ref c = Some i then new @ cs else c # replace_first i new cs)"







text \<open>
  \<^verbatim>\<open>replace_sdt_with_zotero_field(sdt, runs)\<close>: in a paragraph the runs take the place of
  the placeholder; under any other parent they are wrapped in a new paragraph. The
  function returns false, and changes nothing, when the placeholder has no parent.
\<close>

definition field_in_place :: "element list \<Rightarrow> string \<Rightarrow> element list" where
  "field_in_place runs parent_tag =
     (if parent_tag = ''p'' then runs else [Element None (W ''p'') [] None runs])"


section \<open>Conversion engine: one part of the package\<close>



text \<open>The references held by a list of elements collected from the parsed document.\<close>

fun refs_of :: "element list \<Rightarrow> nat list list" where
  "refs_of [] = []"
| "refs_of (e # es) = (case ref e of Some i \<Rightarrow> [i] | None \<Rightarrow> []) @ refs_of es"


text \<open>
  \<^verbatim>\<open>remove_citavi_bibliography(root)\<close>: the loop over \<^verbatim>\<open>list(root.iter(w:sdt))\<close>, which
  tests every collected element when it is met and removes it from its parent when its tag
  value names a bibliography.
\<close>

definition is_citavi_bibliography :: "element \<Rightarrow> bool" where
  "is_citavi_bibliography sdt =
     (case citavi_tag sdt of
        None \<Rightarrow> False
      | Some tag_val \<Rightarrow>
          contains ''CitaviBibliography'' tag_val \<or> contains ''CitaviFilteredBibliography'' tag_val)"




section \<open>Example documents\<close>








section \<open>The effect of the conversion on a tree\<close>

text \<open>
  What the statements about a whole part are written with. The references of a tree,
  and of a list of trees, in document order.
\<close>

definition all_refs :: "element \<Rightarrow> nat list list" where
  "all_refs t = refs_of (iter_all t)"

definition kids_refs :: "element list \<Rightarrow> nat list list" where
  "kids_refs cs = refs_of (concat (map iter_all cs))"

text \<open>
  A plan maps the references of some elements to what is done with them: a field, given
  by its runs, is put in the place of the element, or the element is removed. \<open>rewrite\<close>
  carries out a whole plan in one pass from the root, the way the code does it for one
  element at a time. This function is written from the description of the conversion,
  not from the code: the theorems below compare the two.
\<close>

datatype edit = Field "element list" | Removed

fun put :: "edit \<Rightarrow> string \<Rightarrow> element list" where
  "put (Field runs) parent_tag = field_in_place runs parent_tag"
| "put Removed parent_tag = []"

fun rewrite :: "(nat list \<rightharpoonup> edit) \<Rightarrow> element \<Rightarrow> element"
  and rewrite_kids :: "(nat list \<rightharpoonup> edit) \<Rightarrow> string \<Rightarrow> element list \<Rightarrow> element list"
where
  "rewrite plan (Element r t a x cs) = Element r t a x (rewrite_kids plan (localname t) cs)"
| "rewrite_kids plan parent_tag [] = []"
| "rewrite_kids plan parent_tag (c # cs) =
     (case ref c of
        None \<Rightarrow> [rewrite plan c]
      | Some i \<Rightarrow>
          (case plan i of
             None \<Rightarrow> [rewrite plan c]
           | Some ed \<Rightarrow> put ed parent_tag)) @
     rewrite_kids plan parent_tag cs"

text \<open>The fields of a plan are fields that the synthesizer makes.\<close>

definition is_field :: "element list \<Rightarrow> bool" where
  "is_field runs = (\<exists>js dt. runs = create_zotero_field_xml js dt)"

fun edit_ok :: "edit \<Rightarrow> bool" where
  "edit_ok (Field runs) = is_field runs"
| "edit_ok Removed = True"

definition plan_ok :: "(nat list \<rightharpoonup> edit) \<Rightarrow> bool" where
  "plan_ok plan = (\<forall>i ed. plan i = Some ed \<longrightarrow> edit_ok ed)"



text \<open>
  A placeholder is an element that \<^verbatim>\<open>find_citavi_sdts\<close> collects. The synthesized
  citation field is the only thing the engine creates with a \<^verbatim>\<open>w:noProof\<close> run property
  (the display run of the bibliography field has none), so the citation fields that the
  engine has put into a tree are counted by the created \<^verbatim>\<open>w:noProof\<close> elements.
\<close>

definition placeholder :: "element \<Rightarrow> bool" where
  "placeholder e = (tag e = W ''sdt'' \<and> is_citavi_sdt e)"

definition planned :: "(nat list \<rightharpoonup> edit) \<Rightarrow> element \<Rightarrow> bool" where
  "planned plan e = (case ref e of Some i \<Rightarrow> plan i \<noteq> None | None \<Rightarrow> False)"

definition fielded :: "(nat list \<rightharpoonup> edit) \<Rightarrow> element \<Rightarrow> bool" where
  "fielded plan e =
     (case ref e of
        Some i \<Rightarrow> (case plan i of Some (Field runs) \<Rightarrow> True | _ \<Rightarrow> False)
      | None \<Rightarrow> False)"

definition descendants :: "element \<Rightarrow> element list" where
  "descendants e = concat (map iter_all (children e))"



text \<open>
  A tree is tidy for a plan when all its elements come from the parser, the plan puts
  fields in the place of placeholders only and removes only structured document tags
  that hold no placeholder, and a placeholder holds neither another placeholder nor a
  planned element.
\<close>

definition tidy :: "(nat list \<rightharpoonup> edit) \<Rightarrow> element \<Rightarrow> bool" where
  "tidy plan t =
     (\<forall>e \<in> set (iter_all t). ref e \<noteq> None
        \<and> (fielded plan e \<longrightarrow> placeholder e)
        \<and> (planned plan e \<longrightarrow> tag e = W ''sdt'')
        \<and> (planned plan e \<and> \<not> fielded plan e \<longrightarrow> filter placeholder (iter_all e) = [])
        \<and> (placeholder e \<longrightarrow> filter placeholder (descendants e) = []
              \<and> (\<forall>d \<in> set (descendants e). \<not> planned plan d)))"



chapter \<open>Properties\<close>

section \<open>Properties of the verifier\<close>

lemma field_walk_no_end:
  "0 \<le> st \<Longrightarrow> ''end'' \<notin> set types \<Longrightarrow>
   field_walk st types = (st + int (count_list types ''begin''), False)"
  by (induction types arbitrary: st) (auto simp: Let_def)

text \<open>
  Claim C8. On a tree whose field-character markers hold exactly one \<open>begin\<close> and no
  \<open>end\<close>, the verifier returns its list of issues (it is a total function: nothing is
  raised), the list holds exactly one unclosed-field issue, which reports one field, and
  no unmatched-end issue.
\<close>

theorem verify_one_begin_no_end:
  assumes "count_list (fld_types doc) ''begin'' = 1"
    and "''end'' \<notin> set (fld_types doc)"
  shows "filter is_unclosed (verify_document_integrity doc) = [UnclosedFields 1]
       \<and> UnmatchedEnd \<notin> set (verify_document_integrity doc)"
proof -
  have "field_walk 0 (fld_types doc) = (1, False)"
    using field_walk_no_end [of 0 "fld_types doc"] assms by simp
  then have c: "check_fields (fld_types doc) = [UnclosedFields 1]"
    by (simp add: check_fields_def)
  have m: "filter is_unclosed (map (\<lambda>sdt. SdtWithoutContent) xs) = []" for xs :: "element list"
    by (induction xs) auto
  show ?thesis
    unfolding verify_document_integrity_def c by (auto simp: m)
qed

theorem verify_one_begin_no_end_witness:
  "count_list (fld_types (Element None (W ''document'') [] None
      [Element None (W ''fldChar'') [(W ''fldCharType'', ''begin'')] None [],
       Element None (W ''fldChar'') [(W ''fldCharType'', ''separate'')] None []])) ''begin'' = 1
   \<and> filter is_unclosed (verify_document_integrity (Element None (W ''document'') [] None
      [Element None (W ''fldChar'') [(W ''fldCharType'', ''begin'')] None [],
       Element None (W ''fldChar'') [(W ''fldCharType'', ''separate'')] None []]))
     = [UnclosedFields 1]"
proof -
  let ?doc = "Element None (W ''document'') [] None
      [Element None (W ''fldChar'') [(W ''fldCharType'', ''begin'')] None [],
       Element None (W ''fldChar'') [(W ''fldCharType'', ''separate'')] None []]"
  have t: "fld_types ?doc = [''begin'', ''separate'']"
    by (simp add: fld_types_def iter_def get_def W_def)
  have h1: "count_list (fld_types ?doc) ''begin'' = 1" and h2: "''end'' \<notin> set (fld_types ?doc)"
    unfolding t by simp_all
  show ?thesis
    using verify_one_begin_no_end [OF h1 h2] h1 by simp
qed

section \<open>Properties of the synthesized field\<close>








lemma fld_types_instr_run: "fld_types (instr_run c) = []"
  by (simp add: fld_types_def instr_run_def iter_def W_def)

lemma fld_types_instr_runs: "concat (map fld_types (map instr_run cs)) = []"
  by (induction cs) (simp_all add: fld_types_instr_run)








section \<open>Properties of the bibliography field\<close>

text \<open>
  Claim C10. On a tree whose root has no body child, \<^verbatim>\<open>add_zotero_bibl_at_end\<close>
  returns False and the tree after the call is the tree before it; the model is total,
  so nothing is raised.
\<close>

theorem add_zotero_bibl_no_body:
  "find_child (W ''body'') doc = None \<Longrightarrow> add_zotero_bibl_at_end doc style_uri = (False, doc)"
  by (simp add: add_zotero_bibl_at_end_def)

theorem add_zotero_bibl_no_body_witness:
  "find_child (W ''body'') (Element None (W ''document'') [] None [Element None (W ''p'') [] None []]) = None
   \<and> add_zotero_bibl_at_end (Element None (W ''document'') [] None [Element None (W ''p'') [] None []])
        ''http://www.zotero.org/styles/harvard-cite-them-right''
      = (False, Element None (W ''document'') [] None [Element None (W ''p'') [] None []])"
proof -
  have h: "find_child (W ''body'') (Element None (W ''document'') [] None [Element None (W ''p'') [] None []])
      = None"
    by (simp add: find_child_def W_def)
  show ?thesis
    using add_zotero_bibl_no_body [OF h] h by simp
qed


section \<open>Properties of the redaction\<close>











section \<open>Properties of the archive accessor\<close>

text \<open>
  Claim C1, at a failing input. With the extraction root \<^verbatim>\<open>/tmp/tmpab12/docx_contents\<close>,
  the member \<^verbatim>\<open>../docx_contents_evil/payload.txt\<close> resolves to a sibling directory of
  the root, outside it, whose path starts with the characters of the root's path: the
  validation accepts it and no error is raised. The extraction itself then writes the
  member below the root.
\<close>

theorem zip_slip_sibling_accepted:
  "realpath (path_join ''/tmp/tmpab12/docx_contents'' ''../docx_contents_evil/payload.txt'')
     = ''/tmp/tmpab12/docx_contents_evil/payload.txt''
   \<and> \<not> inside_root (realpath ''/tmp/tmpab12/docx_contents'')
         ''/tmp/tmpab12/docx_contents_evil/payload.txt''
   \<and> validate_members ''/tmp/tmpab12/docx_contents'' [''../docx_contents_evil/payload.txt'']
     = Inr ()
   \<and> extract_archive ''/tmp/tmpab12/docx_contents'' [''../docx_contents_evil/payload.txt'']
     = Inr [''/tmp/tmpab12/docx_contents/docx_contents_evil/payload.txt'']"
  by (simp add: extract_archive_def extract_target_def inside_root_def realpath_def
      normpath_def path_join_def)

lemma zip_slip_parent_rejected:
  "extract_archive ''/tmp/tmpab12/docx_contents'' [''word/document.xml'', ''../../etc/passwd'']
     = Inl (ValueError
         ''Unsafe path in .docx archive: ../../etc/passwd. The file may be malicious.'')"
  by (simp add: extract_archive_def realpath_def normpath_def path_join_def)






section \<open>Properties of the library matcher\<close>







text \<open>
  Claim C6. The display text \<^verbatim>\<open>(Smith & Jones, 2019; World Health Organization 2020)\<close>
  splits into exactly two citation groups. The first has the year 2019 and the primary
  author \<open>Smith\<close>, which is its only candidate. The second has the year 2020 and keeps
  the whole string \<open>World Health Organization\<close> as primary author and first candidate
  (the last word alone is the second candidate, tried only if the first finds nothing).
  Against a library holding a work by Smith of 2019 and one of the organization of
  2020, both groups resolve, in the order of the text.
\<close>

theorem display_text_example:
  "display_text_parts ''(Smith & Jones, 2019; World Health Organization 2020)''
     = [''Smith & Jones, 2019'', ''World Health Organization 2020'']
   \<and> parse_citation_part ''Smith & Jones, 2019'' = Some (''2019'', ''Smith & Jones'', ''Smith'')
   \<and> parse_citation_part ''World Health Organization 2020''
     = Some (''2020'', ''World Health Organization'', ''World Health Organization'')
   \<and> candidates_of ''Smith'' = [''Smith'']
   \<and> candidates_of ''World Health Organization'' = [''World Health Organization'', ''Organization'']
   \<and> fst (find_match_by_display_text Map.empty [who_2020, smith_2019 ''K1'']
          ''(Smith & Jones, 2019; World Health Organization 2020)'')
     = [smith_2019 ''K1'', who_2020]"
  by code_simp

section \<open>Properties of the payload decoder\<close>

lemma strip_no_space: "\<forall>c \<in> set s. \<not> isspace c \<Longrightarrow> strip s = s"
proof -
  assume a: "\<forall>c \<in> set s. \<not> isspace c"
  then have "dropWhile isspace s = s" by (cases s) auto
  moreover from a have "dropWhile isspace (rev s) = rev s" by (cases "rev s") auto
  ultimately show ?thesis by (simp add: strip_def lstrip_def rstrip_def)
qed

text \<open>
  The first half of claim C4 holds. If the instruction text of a placeholder is a
  non-empty text without white space (as a base64 text is) that the library decodes to
  bytes, those to a text and that to the JSON value \<open>v\<close>, the decoder returns \<open>v\<close>.
\<close>

lemma decode_roundtrip:
  assumes "find_child (W ''sdtContent'') sdt = Some sdt_content"
    and "concat (instr_parts sdt_content) = enc"
    and "enc \<noteq> []"
    and "\<forall>c \<in> set enc. \<not> isspace c"
    and "b64decode L enc = Inr bytes"
    and "json_loads L (utf8_decode L bytes) = Inr v"
  shows "decode_citavi_payload L sdt = Inr v"
proof -
  have p: "instr_parts sdt_content \<noteq> []" using assms(2,3) by auto
  have "\<not> isspace c \<Longrightarrow> c \<noteq> CHR '' ''" for c by (auto simp: isspace_def)
  then have "CHR '' '' \<notin> set enc" using assms(4) by blast
  then have c: "payload_candidates enc = Inr [enc, enc]" by (simp add: payload_candidates_def)
  have "b64_loop L [enc, enc] = Inr (Some v)"
    using assms(3,5,6) strip_no_space [OF assms(4)] by simp
  then show ?thesis
    using assms(1,2) p c by (simp add: decode_citavi_payload_def)
qed

lemma rmatch_star_any:
  "i \<le> length s \<Longrightarrow> length s - i \<le> fuel \<Longrightarrow>
   rmatch ic s fuel (Star (Cls AnyChar)) i = rev [i ..< Suc (length s)]"
proof (induction fuel arbitrary: i)
  case 0
  then show ?case by simp
next
  case (Suc fuel)
  show ?case
  proof (cases "i < length s")
    case True
    then have "rmatch ic s fuel (Star (Cls AnyChar)) (Suc i) = rev [Suc i ..< Suc (length s)]"
      using Suc.IH [of "Suc i"] Suc.prems by simp
    then show ?thesis using True by (simp add: upt_rec [of i])
  next
    case False
    with Suc.prems have "i = length s" by simp
    then show ?thesis by simp
  qed
qed

lemma re_search_braces:
  "re_search False brace_re (CHR ''{'' # body @ ''}'') = Some (0, length body + 2)"
proof -
  let ?s = "CHR ''{'' # body @ ''}''"
  let ?n = "length body"
  let ?close = "rmatch False ?s (length ?s) (Lit CHR ''}'')"
  have star: "rmatch False ?s (length ?s) (Star (Cls AnyChar)) (Suc 0)
      = rev [Suc 0 ..< Suc (length ?s)]"
    by (rule rmatch_star_any) simp_all
  have "[Suc 0 ..< Suc (length ?s)] = [Suc 0 ..< Suc ?n] @ [Suc ?n, Suc (Suc ?n)]"
    by simp
  then have u: "rev [Suc 0 ..< Suc (length ?s)] = Suc (Suc ?n) # Suc ?n # rev [Suc 0 ..< Suc ?n]"
    by (simp only: rev_append rev.simps append.simps)
  have e1: "?close (Suc (Suc ?n)) = []" by simp
  have "?s ! Suc ?n = CHR ''}''" by (simp add: nth_append)
  then have e2: "?close (Suc ?n) = [Suc (Suc ?n)]" by simp
  have "rmatch False ?s (length ?s) brace_re 0 = concat (map ?close (rev [Suc 0 ..< Suc (length ?s)]))"
    unfolding brace_re_def using star by simp
  also have "\<dots> = Suc (Suc ?n) # concat (map ?close (rev [Suc 0 ..< Suc ?n]))"
    by (simp only: u list.map concat.simps e1 e2 append.simps)
  finally have m: "match_at False brace_re ?s 0 = Some (Suc (Suc ?n))"
    by (simp add: match_at_def)
  have "[0 ..< Suc (length ?s)] = 0 # [Suc 0 ..< Suc (length ?s)]"
    by (rule upt_conv_Cons) simp
  then have "re_search False brace_re ?s
      = search_from False brace_re ?s (0 # [Suc 0 ..< Suc (length ?s)])"
    by (simp only: re_search_def)
  also have "\<dots> = Some (0, Suc (Suc ?n))"
    by (simp only: search_from.simps m option.case)
  finally show ?thesis by simp
qed

text \<open>
  Claim C4, at the failing inputs. The handler of the last strategy catches
  \<^verbatim>\<open>json.JSONDecodeError\<close> only, where the handler of the base64 strategies also
  catches \<^verbatim>\<open>ValueError\<close>. If the instruction text is a brace-delimited text on which
  both base64 attempts fail and on which the JSON parser raises a \<^verbatim>\<open>ValueError\<close> that
  is not a \<^verbatim>\<open>JSONDecodeError\<close>, the decoder raises that error instead of returning
  null.
\<close>

theorem decode_uncaught_value_error:
  assumes "find_child (W ''sdtContent'') sdt = Some sdt_content"
    and "concat (instr_parts sdt_content) = CHR ''{'' # body @ ''}''"
    and "payload_candidates (CHR ''{'' # body @ ''}'') = Inr candidates"
    and "b64_loop L candidates = Inr None"
    and "json_loads L (CHR ''{'' # body @ ''}'') = Inl (ValueError m)"
  shows "decode_citavi_payload L sdt = Inl (ValueError m)"
proof -
  have p: "instr_parts sdt_content \<noteq> []" using assms(2) by auto
  have "slice (CHR ''{'' # body @ ''}'') 0 (length body + 2) = CHR ''{'' # body @ ''}''"
    by (simp add: slice_def)
  then have "json_object_step L (CHR ''{'' # body @ ''}'') = Inl (ValueError m)"
    using assms(5) by (simp add: json_object_step_def re_search_braces)
  then show ?thesis
    using assms(1-4) p by (simp add: decode_citavi_payload_def)
qed

lemma strip_hd: "strip t \<noteq> [] \<Longrightarrow> \<not> isspace (hd (strip t))"
proof -
  let ?u = "dropWhile isspace t"
  let ?w = "dropWhile isspace (rev ?u)"
  assume a: "strip t \<noteq> []"
  then have w: "?w \<noteq> []" by (simp add: strip_def lstrip_def rstrip_def)
  have u: "?u \<noteq> []"
  proof
    assume e: "?u = []"
    have "?w = []" unfolding e by simp
    with w show False ..
  qed
  have "rev ?u = takeWhile isspace (rev ?u) @ ?w" by simp
  then have "last (rev ?u) = last ?w" using w by (metis last_appendR)
  then have "hd (strip t) = hd ?u"
    using w u by (simp add: strip_def lstrip_def rstrip_def hd_rev last_rev)
  then show ?thesis using u by (simp add: hd_dropWhile)
qed

lemma instr_parts_stripped: "p \<in> set (instr_parts c) \<Longrightarrow> \<exists>t. p = strip t"
  by (auto simp: instr_parts_def split: option.splits if_splits)

lemma payload_candidates_ok:
  "\<exists>c. payload_candidates (concat (instr_parts sdt_content)) = Inr [concat (instr_parts sdt_content), c]"
proof (cases "CHR '' '' \<in> set (concat (instr_parts sdt_content))")
  case False
  then show ?thesis by (simp add: payload_candidates_def)
next
  case True
  let ?raw = "concat (instr_parts sdt_content)"
  from True obtain p where p: "p \<in> set (instr_parts sdt_content)" "CHR '' '' \<in> set p" by auto
  then obtain t where t: "p = strip t" using instr_parts_stripped by blast
  from p(2) have "p \<noteq> []" by auto
  then have "\<not> isspace (hd p)" "hd p \<in> set p" using t strip_hd by auto
  then have "\<exists>c \<in> set ?raw. \<not> isspace c" using p(1) by auto
  then have "lstrip ?raw \<noteq> []" by (auto simp: lstrip_def dropWhile_eq_Nil_conv)
  then have "split_ws1 ?raw \<noteq> []"
    by (auto simp: split_ws1_def Let_def split: list.splits)
  then show ?thesis
    using True by (auto simp: payload_candidates_def split: list.splits)
qed

lemma b64_loop_caught:
  assumes "\<And>s e. b64decode L s = Inl e \<Longrightarrow> is_ValueError e"
    and "\<And>s e. json_loads L s = Inl e \<Longrightarrow> is_JSONDecodeError e"
  shows "\<exists>r. b64_loop L cs = Inr r"
proof (induction cs)
  case Nil
  then show ?case by simp
next
  case (Cons c cs)
  have j: "is_JSONDecodeError e \<Longrightarrow> is_ValueError e" for e by (cases e) auto
  show ?case
    using Cons assms(1) j [OF assms(2)]
    by (auto simp: Let_def split: sum.splits)
qed

text \<open>
  Under the contract that the base64 decoder fails only with errors of the class
  \<^verbatim>\<open>ValueError\<close> and the JSON parser only with \<^verbatim>\<open>JSONDecodeError\<close>, the decoder
  raises nothing, and where every strategy fails it returns null.
\<close>

lemma decode_failures_give_null:
  assumes "\<And>s e. b64decode L s = Inl e \<Longrightarrow> is_ValueError e"
    and "\<And>s e. json_loads L s = Inl e \<Longrightarrow> is_JSONDecodeError e"
  shows "(\<exists>v. decode_citavi_payload L sdt = Inr v)
     \<and> ((\<forall>s v. json_loads L s \<noteq> Inr v) \<longrightarrow> decode_citavi_payload L sdt = Inr JNull)"
proof (cases "find_child (W ''sdtContent'') sdt")
  case None
  then show ?thesis by (simp add: decode_citavi_payload_def)
next
  case (Some sdt_content)
  let ?raw = "concat (instr_parts sdt_content)"
  obtain c where c: "payload_candidates ?raw = Inr [?raw, c]"
    using payload_candidates_ok by blast
  have "\<exists>r. b64_loop L [?raw, c] = Inr r"
    by (rule b64_loop_caught [where L = L]) (fact assms)+
  then obtain r where r: "b64_loop L [?raw, c] = Inr r" ..
  have o: "\<exists>v. json_object_step L ?raw = Inr v"
    using assms(2) by (auto simp: json_object_step_def split: option.splits sum.splits)
  have o': "(\<forall>s v. json_loads L s \<noteq> Inr v) \<Longrightarrow> json_object_step L ?raw = Inr JNull"
    using assms(2) by (auto simp: json_object_step_def split: option.splits sum.splits)
  have r': "(\<forall>s v. json_loads L s \<noteq> Inr v) \<Longrightarrow> r = None"
    using r by (auto simp: Let_def split: sum.splits if_splits)
  show ?thesis
    using Some c r o o' r'
    by (cases r) (auto simp: decode_citavi_payload_def Let_def)
qed

theorem decode_uncaught_value_error_witness:
  "decode_citavi_payload toy_codecs (placeholder_sdt long_number_object)
     = Inl (ValueError ''Exceeds the limit (4300 digits) for integer string conversion'')"
proof -
  let ?body = \<open>''"Year": '' @ replicate 4301 CHR ''1''\<close>
  let ?content = "Element None (W ''sdtContent'') [] None
          [fld_char_run ''begin'', instr_run long_number_object,
           fld_char_run ''separate'', fld_char_run ''end'']"
  have raw: \<open>long_number_object = CHR ''{'' # ?body @ ''}''\<close>
    by (simp add: long_number_object_def)
  have h1: "find_child (W ''sdtContent'') (placeholder_sdt long_number_object) = Some ?content"
    by (simp add: placeholder_sdt_def find_child_def W_def)
  have h2: "concat (instr_parts ?content) = long_number_object"
    by code_simp
  have h3: \<open>payload_candidates long_number_object
      = Inr [long_number_object, replicate 4301 CHR ''1'' @ ''}'']\<close>
    by code_simp
  have h4: \<open>b64_loop toy_codecs [long_number_object, replicate 4301 CHR ''1'' @ ''}''] = Inr None\<close>
    by code_simp
  have h5: "json_loads toy_codecs long_number_object
      = Inl (ValueError ''Exceeds the limit (4300 digits) for integer string conversion'')"
    by code_simp
  show ?thesis
    using decode_uncaught_value_error [of "placeholder_sdt long_number_object" ?content ?body _ toy_codecs]
      h1 h2 h3 h4 h5
    unfolding raw by blast
qed


section \<open>Properties of the conversion of a part\<close>

text \<open>
  The loop of \<^verbatim>\<open>process_xml_file\<close> is compared with \<open>rewrite\<close>: after every iteration the
  tree of the document is the parsed tree rewritten by the plan that maps the placeholders
  replaced so far to their fields, and after every iteration of the loop of
  \<^verbatim>\<open>remove_citavi_bibliography\<close> the plan holds the blocks removed so far as well. The
  lemmas first relate one replacement to one more entry of the plan, then show that the
  cache of the matcher does not change what is found, then count placeholders and fields
  in a rewritten tree.
\<close>

lemma refs_of_append [simp]: "refs_of (xs @ ys) = refs_of xs @ refs_of ys"
  by (induction xs) auto

lemma kids_refs_simps [simp]:
  "kids_refs [] = []"
  "kids_refs (c # cs) = all_refs c @ kids_refs cs"
  by (simp_all add: kids_refs_def all_refs_def)

lemma all_refs_Element:
  "all_refs (Element r t a x cs) = (case r of Some i \<Rightarrow> [i] | None \<Rightarrow> []) @ kids_refs cs"
  by (simp add: all_refs_def kids_refs_def)



lemma rewrite_sel [simp]:
  "ref (rewrite plan t) = ref t" "tag (rewrite plan t) = tag t"
  "attrib (rewrite plan t) = attrib t" "elem_text (rewrite plan t) = elem_text t"
  by (cases t; simp)+

lemma kids_refs_append [simp]: "kids_refs (xs @ ys) = kids_refs xs @ kids_refs ys"
  by (simp add: kids_refs_def)

lemma all_refs_run [simp]:
  "all_refs (fld_char_run t) = []" "all_refs (instr_run c) = []"
  by (simp_all add: all_refs_def fld_char_run_def instr_run_def)

lemma kids_refs_instr_runs: "kids_refs (map (\<lambda>i. instr_run (f i)) xs) = []"
  by (induction xs) simp_all

lemma field_refs: "is_field runs \<Longrightarrow> kids_refs runs = []"
  unfolding is_field_def
  by (auto simp: create_zotero_field_xml_def Let_def kids_refs_instr_runs all_refs_Element)

lemma field_in_place_refs: "is_field runs \<Longrightarrow> kids_refs (field_in_place runs pt) = []"
  by (simp add: field_in_place_def all_refs_Element field_refs)

lemma put_refs: "edit_ok ed \<Longrightarrow> kids_refs (put ed pt) = []"
  by (cases ed) (simp_all add: field_in_place_refs)

lemma rewrite_refs_subset:
  "plan_ok plan \<Longrightarrow> set (all_refs (rewrite plan t)) \<subseteq> set (all_refs t)"
  "plan_ok plan \<Longrightarrow> set (kids_refs (rewrite_kids plan pt cs)) \<subseteq> set (kids_refs cs)"
proof (induction plan t and plan pt cs rule: rewrite_rewrite_kids.induct)
  case (1 plan r t a x cs)
  then show ?case by (auto simp: all_refs_Element split: option.splits)
next
  case (2 plan pt)
  then show ?case by simp
next
  case (3 plan pt c cs)
  show ?case
  proof (cases "ref c")
    case None
    with 3 show ?thesis by auto
  next
    case (Some i)
    show ?thesis
    proof (cases "plan i")
      case None
      with 3 Some show ?thesis by auto
    next
      case (Some ed)
      with "3.prems" have "edit_ok ed" by (auto simp: plan_ok_def)
      with 3 Some \<open>ref c = Some i\<close> show ?thesis
        by (auto simp: put_refs)
    qed
  qed
qed








lemma absent_replace_first:
  "\<not> list_ex (\<lambda>c. ref c = Some i) cs \<Longrightarrow> replace_first i new cs = cs"
  by (induction cs) auto









lemma image_refs:
  assumes "plan_ok plan"
  shows "set (kids_refs (case ref c of None \<Rightarrow> [rewrite plan c]
            | Some j \<Rightarrow> (case plan j of None \<Rightarrow> [rewrite plan c]
                | Some ed \<Rightarrow> put ed pt))) \<subseteq> set (all_refs c)"
  using rewrite_refs_subset(1) [OF assms, of c] assms
  by (auto simp: plan_ok_def put_refs split: option.splits)












lemma iter_all_descendants: "iter_all e = e # descendants e"
  by (cases e) (simp add: descendants_def)

lemma self_iter_all [simp]: "e \<in> set (iter_all e)"
  by (simp add: iter_all_descendants)


lemma iter_all_trans:
  "a \<in> set (iter_all e) \<Longrightarrow> e \<in> set (iter_all t) \<Longrightarrow> a \<in> set (iter_all t)"
proof (induction t rule: iter_all.induct)
  case (1 r tg ab x cs)
  show ?case
  proof (cases "e = Element r tg ab x cs")
    case True
    with 1 show ?thesis by simp
  next
    case False
    with "1.prems" obtain c where "c \<in> set cs" "e \<in> set (iter_all c)" by auto
    with 1 have "a \<in> set (iter_all c)" by blast
    with \<open>c \<in> set cs\<close> show ?thesis by auto
  qed
qed

lemma child_iter_all: "c \<in> set (children t) \<Longrightarrow> set (iter_all c) \<subseteq> set (iter_all t)"
  by (cases t) auto


lemma tidyD:
  assumes "tidy plan t" "e \<in> set (iter_all t)"
  shows "ref e \<noteq> None"
    and "fielded plan e \<Longrightarrow> placeholder e"
    and "planned plan e \<Longrightarrow> tag e = W ''sdt''"
    and "planned plan e \<Longrightarrow> \<not> fielded plan e \<Longrightarrow> filter placeholder (iter_all e) = []"
    and "placeholder e \<Longrightarrow> filter placeholder (descendants e) = []"
    and "placeholder e \<Longrightarrow> d \<in> set (descendants e) \<Longrightarrow> \<not> planned plan d"
  using assms unfolding tidy_def by blast+






lemma tags_differ [simp]:
  "W a = W b \<longleftrightarrow> a = b"
  by (simp add: W_def)






lemma field_tops:
  assumes "is_field runs" "e \<in> set (field_in_place runs pt)"
  shows "tag e = W ''r'' \<or> tag e = W ''p''"
proof -
  from assms(1) obtain js dt where r: "runs = create_zotero_field_xml js dt"
    by (auto simp: is_field_def)
  have "\<And>a. a \<in> set runs \<Longrightarrow> tag a = W ''r''"
    unfolding r create_zotero_field_xml_def Let_def
    by (auto simp: fld_char_run_def instr_run_def)
  then show ?thesis
    using assms(2) by (auto simp: field_in_place_def split: if_splits)
qed




lemma put_tops:
  "edit_ok ed \<Longrightarrow> e \<in> set (put ed pt) \<Longrightarrow> tag e = W ''r'' \<or> tag e = W ''p''"
  using field_tops by (cases ed) auto


lemma find_skip: "\<forall>x \<in> set xs. \<not> P x \<Longrightarrow> List.find P (xs @ ys) = List.find P ys"
  by (induction xs) auto

lemma find_kids_rewrite:
  assumes "plan_ok plan" "T \<noteq> W ''sdt''" "T \<noteq> W ''r''" "T \<noteq> W ''p''"
  shows "\<forall>c \<in> set cs. planned plan c \<longrightarrow> tag c = W ''sdt'' \<Longrightarrow>
     List.find (\<lambda>c. tag c = T) (rewrite_kids plan pt cs)
       = map_option (rewrite plan) (List.find (\<lambda>c. tag c = T) cs)"
proof (induction cs)
  case Nil
  then show ?case by simp
next
  case (Cons c cs)
  then have rest: "List.find (\<lambda>c. tag c = T) (rewrite_kids plan pt cs)
       = map_option (rewrite plan) (List.find (\<lambda>c. tag c = T) cs)" by simp
  show ?case
  proof (cases "planned plan c")
    case False
    then have "rewrite_kids plan pt (c # cs) = rewrite plan c # rewrite_kids plan pt cs"
      by (auto simp: planned_def split: option.splits)
    with rest show ?thesis by simp
  next
    case True
    then obtain i ed where i: "ref c = Some i" "plan i = Some ed"
      by (auto simp: planned_def split: option.splits)
    then have f: "edit_ok ed" using assms(1) by (auto simp: plan_ok_def)
    have "tag c = W ''sdt''" using Cons.prems True by simp
    moreover have "\<forall>e \<in> set (put ed pt). \<not> tag e = T"
      using put_tops [OF f] assms by auto
    ultimately show ?thesis
      using i rest assms(2) by (simp add: find_skip)
  qed
qed

lemma find_child_rewrite:
  assumes "plan_ok plan" "T \<noteq> W ''sdt''" "T \<noteq> W ''r''" "T \<noteq> W ''p''"
    and "\<forall>c \<in> set (children t). planned plan c \<longrightarrow> tag c = W ''sdt''"
  shows "find_child T (rewrite plan t) = map_option (rewrite plan) (find_child T t)"
  using find_kids_rewrite [OF assms(1-4), of "children t" "localname (tag t)"] assms(5)
  by (cases t) (simp add: find_child_def)

lemma find_child_mem: "find_child T t = Some c \<Longrightarrow> c \<in> set (children t)"
  by (auto simp: find_child_def find_Some_iff)

lemma citavi_tag_rewrite:
  assumes "plan_ok plan" "\<forall>c \<in> set (iter_all t). planned plan c \<longrightarrow> tag c = W ''sdt''"
  shows "citavi_tag (rewrite plan t) = citavi_tag t"
proof -
  have kids: "\<forall>c \<in> set (children t). planned plan c \<longrightarrow> tag c = W ''sdt''"
    using assms(2) child_iter_all [of _ t] self_iter_all by blast
  have a: "find_child (W ''sdtPr'') (rewrite plan t)
      = map_option (rewrite plan) (find_child (W ''sdtPr'') t)"
    by (rule find_child_rewrite [OF assms(1) _ _ _ kids]) simp_all
  show ?thesis
  proof (cases "find_child (W ''sdtPr'') t")
    case None
    with a show ?thesis by (simp add: citavi_tag_def)
  next
    case (Some sp)
    then have "sp \<in> set (children t)" by (rule find_child_mem)
    then have "set (iter_all sp) \<subseteq> set (iter_all t)" by (rule child_iter_all)
    then have "\<forall>c \<in> set (children sp). planned plan c \<longrightarrow> tag c = W ''sdt''"
      using assms(2) child_iter_all [of _ sp] self_iter_all by blast
    then have b: "find_child (W ''tag'') (rewrite plan sp)
        = map_option (rewrite plan) (find_child (W ''tag'') sp)"
      by (intro find_child_rewrite [OF assms(1)]) simp_all
    show ?thesis
      using a b Some by (simp add: citavi_tag_def get_def split: option.splits)
  qed
qed





lemma bibliography_rewrite:
  assumes "plan_ok plan" "tidy plan t" "e \<in> set (iter_all t)"
  shows "is_citavi_bibliography (rewrite plan e) = is_citavi_bibliography e"
proof -
  have "\<forall>c \<in> set (iter_all e). planned plan c \<longrightarrow> tag c = W ''sdt''"
    using tidyD(3) [OF assms(2)] iter_all_trans [OF _ assms(3)] by blast
  then have "citavi_tag (rewrite plan e) = citavi_tag e"
    by (rule citavi_tag_rewrite [OF assms(1)])
  then show ?thesis by (simp add: is_citavi_bibliography_def)
qed

lemma label_sel [simp]:
  "tag (label p e) = tag e" "ref (label p e) = Some p"
  by (cases e; simp)+














lemma rewrite_distinct:
  "plan_ok plan \<Longrightarrow> distinct (all_refs t) \<Longrightarrow> distinct (all_refs (rewrite plan t))"
  "plan_ok plan \<Longrightarrow> distinct (kids_refs cs) \<Longrightarrow> distinct (kids_refs (rewrite_kids plan pt cs))"
proof (induction plan t and plan pt cs rule: rewrite_rewrite_kids.induct)
  case (1 plan r t a x cs)
  have "distinct (kids_refs cs)"
    using "1.prems"(2) by (simp add: all_refs_Element split: option.splits)
  with 1 have "distinct (kids_refs (rewrite_kids plan (localname t) cs))" by simp
  then show ?case
    using "1.prems"(2) rewrite_refs_subset(2) [OF "1.prems"(1), of "localname t" cs]
    by (auto simp: all_refs_Element split: option.splits)
next
  case (2 plan pt)
  then show ?case by simp
next
  case (3 plan pt c cs)
  let ?im = "case ref c of None \<Rightarrow> [rewrite plan c]
            | Some j \<Rightarrow> (case plan j of None \<Rightarrow> [rewrite plan c]
                | Some ed \<Rightarrow> put ed pt)"
  have d: "distinct (all_refs c)" "distinct (kids_refs cs)"
    "set (all_refs c) \<inter> set (kids_refs cs) = {}"
    using "3.prems"(2) by simp_all
  have rest: "distinct (kids_refs (rewrite_kids plan pt cs))"
    using "3.IH"(3) [OF "3.prems"(1) d(2)] .
  have sub: "set (kids_refs ?im) \<subseteq> set (all_refs c)"
    by (rule image_refs [OF "3.prems"(1)])
  have sub2: "set (kids_refs (rewrite_kids plan pt cs)) \<subseteq> set (kids_refs cs)"
    by (rule rewrite_refs_subset(2) [OF "3.prems"(1)])
  have im: "distinct (kids_refs ?im)"
  proof (cases "ref c")
    case None
    with "3.IH"(1) [OF None "3.prems"(1) d(1)] show ?thesis by (simp add: kids_refs_def all_refs_def)
  next
    case (Some j)
    show ?thesis
    proof (cases "plan j")
      case None
      with "3.IH"(2) [OF Some None "3.prems"(1) d(1)] Some show ?thesis
        by (simp add: kids_refs_def all_refs_def)
    next
      case (Some ed)
      then have "edit_ok ed" using "3.prems"(1) by (auto simp: plan_ok_def)
      with Some \<open>ref c = Some j\<close> show ?thesis by (simp add: put_refs)
    qed
  qed
  have "rewrite_kids plan pt (c # cs) = ?im @ rewrite_kids plan pt cs" by simp
  then show ?case
    using im rest sub sub2 d(3) by (simp only: kids_refs_append distinct_append) blast
qed



lemma find_ref_sound:
  "find_ref i t = Some e \<Longrightarrow> e \<in> set (iter_all t) \<and> ref e = Some i"
  "find_ref_kids i cs = Some e \<Longrightarrow> e \<in> set (concat (map iter_all cs)) \<and> ref e = Some i"
  by (induction i t and i cs rule: find_ref_find_ref_kids.induct)
     (auto split: if_splits option.splits)
















end
